theory Spec2Isabelle
  imports Main "HOL-Library.Word"
begin

section \<open>JavaScript strings\<close>

text \<open>
  A JavaScript string is a sequence of UTF-16 code units; \<^verbatim>\<open>s.length\<close> counts code
  units. String literals of the source are ASCII and are written through \<open>js\<close>.
\<close>

type_synonym jsstring = "16 word list"

definition js :: "string \<Rightarrow> jsstring" where
  "js s = map of_char s"

text \<open>
  The class \<^verbatim>\<open>\s\<close> of a regular expression and the characters removed by
  \<^verbatim>\<open>String.prototype.trim\<close> are the same set: WhiteSpace and LineTerminator of
  ECMAScript (TAB, LF, VT, FF, CR, SP, NBSP, the other space separators, LS, PS, BOM).
\<close>

definition is_space :: "16 word \<Rightarrow> bool" where
  "is_space c =
     (c = 0x09 \<or> c = 0x0A \<or> c = 0x0B \<or> c = 0x0C \<or> c = 0x0D \<or> c = 0x20 \<or> c = 0xA0
      \<or> c = 0x1680 \<or> (0x2000 \<le> c \<and> c \<le> 0x200A) \<or> c = 0x2028 \<or> c = 0x2029
      \<or> c = 0x202F \<or> c = 0x205F \<or> c = 0x3000 \<or> c = 0xFEFF)"

definition trim :: "jsstring \<Rightarrow> jsstring" where
  "trim s = rev (dropWhile is_space (rev (dropWhile is_space s)))"

text \<open>\<^verbatim>\<open>!s\<close> on a string: the empty string is the only falsy one.\<close>

definition falsy :: "jsstring \<Rightarrow> bool" where
  "falsy s = (s = [])"

subsection \<open>The pattern \<^verbatim>\<open>/\S+@\S+\.\S+/\<close>\<close>

text \<open>
  The matcher follows the pattern from right to left in its definitions and from left to
  right in its run: \<open>nonspace1\<close> is the last \<^verbatim>\<open>\S+\<close>, \<open>domain_part\<close> is
  \<^verbatim>\<open>\S+\.\S+\<close>, \<open>local_part\<close> is the whole pattern anchored at the head of the
  string, and \<open>email_test\<close> is \<^verbatim>\<open>RegExp.prototype.test\<close>, which looks for a match
  starting anywhere. A \<^verbatim>\<open>\S+\<close> takes one character that is not a space and then
  either stops (when the rest of the pattern matches) or goes on.
\<close>

definition AT :: "16 word" where "AT = 0x40"
definition DOT :: "16 word" where "DOT = 0x2E"

fun nonspace1 :: "jsstring \<Rightarrow> bool" where
  "nonspace1 [] = False"
| "nonspace1 (c # cs) = (\<not> is_space c)"

fun dot_tail :: "jsstring \<Rightarrow> bool" where
  "dot_tail [] = False"
| "dot_tail (c # cs) = (c = DOT \<and> nonspace1 cs)"

fun domain_part :: "jsstring \<Rightarrow> bool" where
  "domain_part [] = False"
| "domain_part (c # cs) = (\<not> is_space c \<and> (dot_tail cs \<or> domain_part cs))"

fun at_tail :: "jsstring \<Rightarrow> bool" where
  "at_tail [] = False"
| "at_tail (c # cs) = (c = AT \<and> domain_part cs)"

fun local_part :: "jsstring \<Rightarrow> bool" where
  "local_part [] = False"
| "local_part (c # cs) = (\<not> is_space c \<and> (at_tail cs \<or> local_part cs))"

fun email_test :: "jsstring \<Rightarrow> bool" where
  "email_test [] = False"
| "email_test (c # cs) = (local_part (c # cs) \<or> email_test cs)"

section \<open>The form state of AuthPanel\<close>

text \<open>
  \<^verbatim>\<open>activeTab\<close> only ever holds \<^verbatim>\<open>'login'\<close> or \<^verbatim>\<open>'signup'\<close>. The keys of
  \<^verbatim>\<open>formData\<close> and of \<^verbatim>\<open>errors\<close> are the \<^verbatim>\<open>name\<close> attributes of the five
  inputs the panel renders, so every change event carries one of them.
\<close>

datatype tab = LoginTab | SignupTab

datatype field = Name | Email | Password | ConfirmPassword | ResetEmail

text \<open>
  An outbound \<^verbatim>\<open>api.post(endpoint, payload)\<close> that has not settled yet. The
  continuation of \<^verbatim>\<open>handleSubmit\<close> after its \<^verbatim>\<open>await\<close> reads
  \<^verbatim>\<open>showForgotPassword\<close> from the closure of the render in which the form was
  submitted; \<open>forgot\<close> is that captured value.
\<close>

record call =
  endpoint :: string
  payload :: "(string \<times> jsstring) list"
  forgot :: bool

text \<open>
  The seven \<^verbatim>\<open>useState\<close> cells of the component, and the part of the browser it
  writes to: \<^verbatim>\<open>localStorage\<close>, \<^verbatim>\<open>window.location.href\<close> and the requests
  that are outstanding.
\<close>

record client =
  activeTab :: tab
  showForgotPassword :: bool
  formData :: "field \<Rightarrow> jsstring"
  errors :: "field \<rightharpoonup> jsstring"
  isLoading :: bool
  resetSuccess :: bool
  authError :: jsstring
  localStorage :: "string \<rightharpoonup> jsstring"
  location :: string
  inflight :: "call list"

definition init :: "(string \<rightharpoonup> jsstring) \<Rightarrow> client" where
  "init store =
     \<lparr>activeTab = LoginTab, showForgotPassword = False, formData = (\<lambda>f. []),
      errors = Map.empty, isLoading = False, resetSuccess = False, authError = [],
      localStorage = store, location = ''/'', inflight = []\<rparr>"

subsection \<open>handleInputChange\<close>

text \<open>
  \<^verbatim>\<open>if (errors[name])\<close> is a truthiness test: an entry holding the empty string
  does not pass it and is not deleted.
\<close>

definition handleInputChange :: "field \<Rightarrow> jsstring \<Rightarrow> client \<Rightarrow> client" where
  "handleInputChange name v s =
     (let s1 = s\<lparr>formData := (formData s)(name := v)\<rparr>
      in case errors s name of
           None \<Rightarrow> s1
         | Some m \<Rightarrow> if falsy m then s1 else s1\<lparr>errors := (errors s1)(name := None)\<rparr>)"

subsection \<open>validateForm\<close>

definition keys :: "(field \<rightharpoonup> jsstring) \<Rightarrow> field list" where
  "keys m = filter (\<lambda>f. m f \<noteq> None) [Name, Email, Password, ConfirmPassword, ResetEmail]"

definition validateForm :: "client \<Rightarrow> bool \<times> client" where
  "validateForm s =
     (let newErrors0 = Map.empty;
          newErrors1 =
            (if showForgotPassword s then
               (if falsy (trim (formData s ResetEmail))
                then newErrors0(ResetEmail \<mapsto> js ''Email is required'')
                else if \<not> email_test (formData s ResetEmail)
                then newErrors0(ResetEmail \<mapsto> js ''Email is invalid'')
                else newErrors0)
             else if activeTab s = SignupTab then
               (let e = (if falsy (trim (formData s Name))
                         then newErrors0(Name \<mapsto> js ''Name is required'') else newErrors0)
                in if formData s Password \<noteq> formData s ConfirmPassword
                   then e(ConfirmPassword \<mapsto> js ''Passwords do not match'') else e)
             else newErrors0);
          newErrors2 =
            (if \<not> showForgotPassword s then
               (let e = (if falsy (trim (formData s Email))
                         then newErrors1(Email \<mapsto> js ''Email is required'')
                         else if \<not> email_test (formData s Email)
                         then newErrors1(Email \<mapsto> js ''Email is invalid'')
                         else newErrors1)
                in if falsy (formData s Password)
                   then e(Password \<mapsto> js ''Password is required'')
                   else if length (formData s Password) < 6
                   then e(Password \<mapsto> js ''Password must be at least 6 characters'')
                   else e)
             else newErrors1)
      in (length (keys newErrors2) = 0, s\<lparr>errors := newErrors2\<rparr>))"

subsection \<open>handleSubmit, up to the await\<close>

definition api_post :: "string \<Rightarrow> (string \<times> jsstring) list \<Rightarrow> bool \<Rightarrow> client \<Rightarrow> client" where
  "api_post url body reset s =
     s\<lparr>inflight := inflight s @ [\<lparr>endpoint = url, payload = body, forgot = reset\<rparr>]\<rparr>"

definition handleSubmit :: "client \<Rightarrow> client" where
  "handleSubmit s =
     (let s1 = s\<lparr>authError := []\<rparr>;
          (valid, s2) = validateForm s1
      in if valid then
           (let s3 = s2\<lparr>isLoading := True\<rparr>
            in if showForgotPassword s then
                 api_post ''/auth/forgot-password'' [(''email'', formData s ResetEmail)] True s3
               else if activeTab s = LoginTab then
                 api_post ''/auth/login''
                   [(''email'', formData s Email), (''password'', formData s Password)] False s3
               else
                 api_post ''/auth/register''
                   [(''name'', formData s Name), (''email'', formData s Email),
                    (''password'', formData s Password)] False s3)
         else s2)"

subsection \<open>The response interceptor\<close>

text \<open>
  The fields of an axios error the code reads: \<^verbatim>\<open>error.code\<close>,
  \<^verbatim>\<open>error.response\<close> (absent, or present with \<^verbatim>\<open>data?.msg\<close> a string or
  undefined), whether \<^verbatim>\<open>error.request\<close> is set, and the
  \<^verbatim>\<open>customMessage\<close> the interceptor adds.
\<close>

record axios_error =
  code :: "string option"
  response :: "jsstring option option"
  request :: bool
  customMessage :: "jsstring option"

text \<open>\<^verbatim>\<open>a || d\<close> for a string \<open>a\<close> that may be undefined and a string \<open>d\<close>.\<close>

definition or_else :: "jsstring option \<Rightarrow> jsstring \<Rightarrow> jsstring" where
  "or_else a d = (case a of None \<Rightarrow> d | Some m \<Rightarrow> if falsy m then d else m)"

definition on_response_error :: "axios_error \<Rightarrow> axios_error" where
  "on_response_error error =
     (if code error = Some ''ERR_NETWORK'' then
        error\<lparr>customMessage :=
          Some (js ''Unable to connect to the server. Please make sure the backend is running.'')\<rparr>
      else if code error = Some ''ECONNABORTED'' then
        error\<lparr>customMessage := Some (js ''Request timed out. Please try again.'')\<rparr>
      else case response error of
          Some msg \<Rightarrow>
            error\<lparr>customMessage := Some (or_else msg (js ''Server error occurred.''))\<rparr>
        | None \<Rightarrow>
            if request error then
              error\<lparr>customMessage :=
                Some (js ''No response from server. Please check your network connection.'')\<rparr>
            else
              error\<lparr>customMessage :=
                Some (js ''An error occurred while processing your request.'')\<rparr>)"

subsection \<open>handleSubmit, after the await\<close>

text \<open>
  The awaited call either resolves with a 2xx answer, whose body is a JSON object that
  may or may not carry a \<^verbatim>\<open>token\<close> field, or rejects with an axios error, which
  passes through the response interceptor before \<^verbatim>\<open>catch\<close> sees it.
  \<^verbatim>\<open>localStorage.setItem\<close> stores the string form of its argument, which for
  undefined is \<^verbatim>\<open>"undefined"\<close>. The \<^verbatim>\<open>finally\<close> block runs on both paths.
\<close>

datatype outcome = Resolved "jsstring option" | Rejected axios_error

definition to_string :: "jsstring option \<Rightarrow> jsstring" where
  "to_string v = (case v of None \<Rightarrow> js ''undefined'' | Some t \<Rightarrow> t)"

definition catch_message :: "axios_error \<Rightarrow> jsstring" where
  "catch_message err =
     or_else (customMessage err)
       (or_else (case response err of None \<Rightarrow> None | Some msg \<Rightarrow> msg)
          (js ''An error occurred''))"

definition settle :: "call \<Rightarrow> outcome \<Rightarrow> client \<Rightarrow> client" where
  "settle c r s =
     (let s1 =
        (case r of
           Resolved token \<Rightarrow>
             if forgot c then s\<lparr>resetSuccess := True\<rparr>
             else s\<lparr>localStorage := (localStorage s)(''token'' \<mapsto> to_string token),
                    location := ''/dashboard''\<rparr>
         | Rejected error \<Rightarrow>
             s\<lparr>authError := catch_message (on_response_error error)\<rparr>)
      in s1\<lparr>isLoading := False\<rparr>)"

subsection \<open>handleForgotPassword, handleBackToLogin\<close>

definition handleForgotPassword :: "client \<Rightarrow> client" where
  "handleForgotPassword s =
     s\<lparr>showForgotPassword := True, errors := Map.empty, resetSuccess := False, authError := []\<rparr>"

definition handleBackToLogin :: "client \<Rightarrow> client" where
  "handleBackToLogin s =
     s\<lparr>showForgotPassword := False, errors := Map.empty, resetSuccess := False, authError := []\<rparr>"

subsection \<open>What is rendered\<close>

text \<open>
  The body is \<^verbatim>\<open>resetSuccess ? panel : form\<close>; inside the form,
  \<^verbatim>\<open>showForgotPassword\<close> selects the reset input, otherwise \<^verbatim>\<open>activeTab\<close>
  selects the login or the signup inputs.
\<close>

datatype view = Login | Signup | ForgotPassword | ResetSuccess

fun renders :: "client \<Rightarrow> view \<Rightarrow> bool" where
  "renders s ResetSuccess = resetSuccess s"
| "renders s ForgotPassword = (\<not> resetSuccess s \<and> showForgotPassword s)"
| "renders s Login = (\<not> resetSuccess s \<and> \<not> showForgotPassword s \<and> activeTab s = LoginTab)"
| "renders s Signup = (\<not> resetSuccess s \<and> \<not> showForgotPassword s \<and> activeTab s = SignupTab)"

definition mode :: "client \<Rightarrow> view" where
  "mode s =
     (if resetSuccess s then ResetSuccess
      else if showForgotPassword s then ForgotPassword
      else if activeTab s = LoginTab then Login else Signup)"

text \<open>The controls, each with the condition under which the JSX renders it.\<close>

definition tabs_shown :: "client \<Rightarrow> bool" where
  "tabs_shown s = (\<not> showForgotPassword s)"

definition form_shown :: "client \<Rightarrow> bool" where
  "form_shown s = (\<not> resetSuccess s)"

definition input_shown :: "client \<Rightarrow> field \<Rightarrow> bool" where
  "input_shown s f =
     (form_shown s \<and>
      (if showForgotPassword s then f = ResetEmail
       else f = Email \<or> f = Password \<or>
            (activeTab s = SignupTab \<and> (f = Name \<or> f = ConfirmPassword))))"

definition submit_disabled :: "client \<Rightarrow> bool" where
  "submit_disabled s = isLoading s"

definition forgot_link_shown :: "client \<Rightarrow> bool" where
  "forgot_link_shown s =
     (\<not> showForgotPassword s \<and> \<not> resetSuccess s \<and> activeTab s = LoginTab)"

definition toggle_link_shown :: "client \<Rightarrow> bool" where
  "toggle_link_shown s = (\<not> showForgotPassword s \<and> \<not> resetSuccess s)"

definition back_shown :: "client \<Rightarrow> bool" where
  "back_shown s = (resetSuccess s \<or> (showForgotPassword s \<and> \<not> resetSuccess s))"

text \<open>The banner \<^verbatim>\<open>{authError && ...}\<close> is rendered when \<open>authError\<close> is truthy.\<close>

definition error_banner_shown :: "client \<Rightarrow> bool" where
  "error_banner_shown s = (\<not> falsy (authError s))"

subsection \<open>Events\<close>

text \<open>
  One step is one event handled to its end: a user action on a control that is rendered
  and enabled (otherwise nothing happens), or the settling of the oldest outstanding
  request. A disabled submit button submits nothing, neither by a click nor by the
  Enter key.
\<close>

datatype event =
    Change field jsstring
  | ClickTab tab
  | ClickToggle
  | SubmitForm
  | ClickForgot
  | ClickBack
  | Settle outcome

fun step :: "client \<Rightarrow> event \<Rightarrow> client" where
  "step s (Change f v) = (if input_shown s f then handleInputChange f v s else s)"
| "step s (ClickTab t) = (if tabs_shown s then s\<lparr>activeTab := t\<rparr> else s)"
| "step s ClickToggle =
     (if toggle_link_shown s
      then s\<lparr>activeTab := (if activeTab s = LoginTab then SignupTab else LoginTab)\<rparr> else s)"
| "step s SubmitForm =
     (if form_shown s \<and> \<not> submit_disabled s then handleSubmit s else s)"
| "step s ClickForgot = (if forgot_link_shown s then handleForgotPassword s else s)"
| "step s ClickBack = (if back_shown s then handleBackToLogin s else s)"
| "step s (Settle r) =
     (case inflight s of [] \<Rightarrow> s | c # cs \<Rightarrow> settle c r (s\<lparr>inflight := cs\<rparr>))"

definition run :: "client \<Rightarrow> event list \<Rightarrow> client" where
  "run s evs = foldl step s evs"

section \<open>Dashboard\<close>

text \<open>
  The effect run on mount reads the token and either redirects or installs the fixed
  demo user; \<open>now\<close> is the text of \<^verbatim>\<open>new Date().toISOString()\<close> at that moment.
  \<^verbatim>\<open>!token\<close> holds for a missing key (\<^verbatim>\<open>getItem\<close> gives null) and for the
  empty string.
\<close>

record user_info =
  user_name :: jsstring
  user_email :: jsstring
  createdAt :: jsstring

record dashboard =
  user :: "user_info option"
  loading :: bool
  href :: string

definition dashboard_init :: dashboard where
  "dashboard_init = \<lparr>user = None, loading = True, href = ''/dashboard''\<rparr>"

definition dashboard_effect :: "(string \<rightharpoonup> jsstring) \<Rightarrow> jsstring \<Rightarrow> dashboard \<Rightarrow> dashboard" where
  "dashboard_effect store now d =
     (let token = store ''token''
      in if (case token of None \<Rightarrow> True | Some t \<Rightarrow> falsy t) then d\<lparr>href := ''/''\<rparr>
         else d\<lparr>user := Some \<lparr>user_name = js ''Demo User'', user_email = js ''user@example.com'',
                                createdAt = now\<rparr>,
                loading := False\<rparr>)"

text \<open>
  What the component returns: the spinner while \<open>loading\<close>, else the profile with
  \<^verbatim>\<open>user?.name\<close>, \<^verbatim>\<open>user?.email\<close> and \<^verbatim>\<open>user?.createdAt\<close>.
\<close>

datatype page =
    Spinner
  | Profile "jsstring option" "jsstring option" "jsstring option"

definition dashboard_render :: "dashboard \<Rightarrow> page" where
  "dashboard_render d =
     (if loading d then Spinner
      else Profile (map_option user_name (user d)) (map_option user_email (user d))
             (map_option createdAt (user d)))"

definition Dashboard :: "(string \<rightharpoonup> jsstring) \<Rightarrow> jsstring \<Rightarrow> dashboard" where
  "Dashboard store now = dashboard_effect store now dashboard_init"

section \<open>The state machine of the specification\<close>

text \<open>
  The transitions as the text of the specification lists them: Login to Signup and
  back, Login to ForgotPassword, ForgotPassword to ResetSuccess, ForgotPassword to Login,
  ResetSuccess to Login. This relation follows the specification's words, not the code;
  the transitions of the code are those of \<open>step\<close>, read through \<open>mode\<close>.
\<close>

fun spec_transition :: "view \<Rightarrow> view \<Rightarrow> bool" where
  "spec_transition Login Signup = True"
| "spec_transition Signup Login = True"
| "spec_transition Login ForgotPassword = True"
| "spec_transition ForgotPassword ResetSuccess = True"
| "spec_transition ForgotPassword Login = True"
| "spec_transition ResetSuccess Login = True"
| "spec_transition a b = False"

section \<open>Sample states and traces\<close>

definition reset_sent :: "event list" where
  "reset_sent = [ClickForgot, Change ResetEmail (js ''user@example.com''), SubmitForm]"

definition reset_done :: "event list" where
  "reset_done = reset_sent @ [Settle (Resolved None)]"

definition left_early :: "event list" where
  "left_early = reset_sent @ [ClickBack]"

definition late_answer :: "event list" where
  "late_answer = left_early @ [Settle (Resolved None)]"

definition empty_submit :: "event list" where
  "empty_submit = [SubmitForm]"

definition double_submit :: "event list" where
  "double_submit =
     [Change Email (js ''user@example.com''), Change Password (js ''secret1''),
      SubmitForm, SubmitForm]"

definition bad_reset :: client where
  "bad_reset =
     (init Map.empty)\<lparr>showForgotPassword := True,
                       formData := (\<lambda>f. [])(ResetEmail := js ''bad-email'')\<rparr>"

definition mismatch_signup :: client where
  "mismatch_signup =
     (init Map.empty)\<lparr>activeTab := SignupTab,
        formData := (\<lambda>f. [])(Name := js ''Ann'', Email := js ''ann@example.com'',
                      Password := js ''secret1'', ConfirmPassword := js ''secret2'')\<rparr>"

definition refused :: axios_error where
  "refused = \<lparr>code = Some ''ERR_NETWORK'', response = None, request = True, customMessage = None\<rparr>"

definition wrong_password :: axios_error where
  "wrong_password =
     \<lparr>code = Some ''ERR_BAD_REQUEST'', response = Some (Some (js ''Invalid credentials'')),
      request = True, customMessage = None\<rparr>"

definition login_call :: call where
  "login_call =
     \<lparr>endpoint = ''/auth/login'',
      payload = [(''email'', js ''user@example.com''), (''password'', js ''secret1'')],
      forgot = False\<rparr>"

definition waiting :: client where
  "waiting = (init [''token'' \<mapsto> js ''old''])\<lparr>isLoading := True\<rparr>"

definition timed_out :: axios_error where
  "timed_out = \<lparr>code = Some ''ECONNABORTED'', response = None, request = True, customMessage = None\<rparr>"

definition server_failure :: axios_error where
  "server_failure =
     \<lparr>code = Some ''ERR_BAD_RESPONSE'', response = Some None, request = True, customMessage = None\<rparr>"

definition login_form :: client where
  "login_form =
     (init [''token'' \<mapsto> js ''old''])\<lparr>formData :=
        (\<lambda>f. [])(Email := js ''user@example.com'', Password := js ''secret1'')\<rparr>"

definition reset_form :: client where
  "reset_form =
     (init Map.empty)\<lparr>showForgotPassword := True,
                       formData := (\<lambda>f. [])(ResetEmail := js ''user@example.com'')\<rparr>"

section \<open>Properties of the validation\<close>

lemma js_nonempty: "s \<noteq> [] \<Longrightarrow> js s \<noteq> []"
  by (simp add: js_def)

lemma trim_Nil: "trim [] = []"
  by (simp add: trim_def)

lemma at_tail_needs_at: "at_tail s \<Longrightarrow> AT \<in> set s"
  by (cases s) auto

lemma local_part_needs_at: "local_part s \<Longrightarrow> AT \<in> set s"
proof (induction s)
  case Nil
  then show ?case by simp
next
  case (Cons c cs)
  then show ?case using at_tail_needs_at [of cs] by auto
qed

lemma email_test_needs_at: "email_test s \<Longrightarrow> AT \<in> set s"
proof (induction s)
  case Nil
  then show ?case by simp
next
  case (Cons c cs)
  then show ?case using local_part_needs_at [of "c # cs"] by auto
qed

text \<open>
  The matcher accepts exactly the strings that contain, somewhere, one or more
  characters that are not spaces, an at sign, one or more characters that are not
  spaces, a dot, and a character that is not a space.
\<close>

lemma nonspace1_iff: "nonspace1 s \<longleftrightarrow> (\<exists>b q. s = b # q \<and> \<not> is_space b)"
  by (cases s) auto

lemma dot_tail_iff: "dot_tail s \<longleftrightarrow> (\<exists>b q. s = DOT # b # q \<and> \<not> is_space b)"
  by (cases s) (auto simp: nonspace1_iff)

lemma domain_part_iff:
  "domain_part s \<longleftrightarrow>
     (\<exists>m b q. s = m @ DOT # b # q \<and> m \<noteq> [] \<and> (\<forall>c \<in> set m. \<not> is_space c) \<and> \<not> is_space b)"
proof (induction s)
  case Nil
  then show ?case by simp
next
  case (Cons c cs)
  note IH = Cons.IH
  show ?case
  proof
    assume "domain_part (c # cs)"
    then have c: "\<not> is_space c" and d: "dot_tail cs \<or> domain_part cs" by auto
    from d show "\<exists>m b q. c # cs = m @ DOT # b # q \<and> m \<noteq> [] \<and> (\<forall>c \<in> set m. \<not> is_space c) \<and> \<not> is_space b"
    proof
      assume "dot_tail cs"
      then obtain b q where "cs = DOT # b # q" "\<not> is_space b" by (auto simp: dot_tail_iff)
      with c have "c # cs = [c] @ DOT # b # q \<and> [c] \<noteq> [] \<and> (\<forall>x \<in> set [c]. \<not> is_space x) \<and> \<not> is_space b"
        by simp
      then show ?thesis by blast
    next
      assume "domain_part cs"
      with IH obtain m b q where
        "cs = m @ DOT # b # q" "m \<noteq> []" "\<forall>x \<in> set m. \<not> is_space x" "\<not> is_space b"
        by blast
      with c have "c # cs = (c # m) @ DOT # b # q \<and> c # m \<noteq> [] \<and>
                   (\<forall>x \<in> set (c # m). \<not> is_space x) \<and> \<not> is_space b"
        by simp
      then show ?thesis by blast
    qed
  next
    assume "\<exists>m b q. c # cs = m @ DOT # b # q \<and> m \<noteq> [] \<and> (\<forall>c \<in> set m. \<not> is_space c) \<and> \<not> is_space b"
    then obtain m b q where
      e: "c # cs = m @ DOT # b # q" and ne: "m \<noteq> []"
      and sp: "\<forall>x \<in> set m. \<not> is_space x" and b: "\<not> is_space b"
      by blast
    from ne obtain m' where m: "m = c # m'" using e by (cases m) auto
    with e have cs: "cs = m' @ DOT # b # q" by simp
    from m sp have c: "\<not> is_space c" by simp
    show "domain_part (c # cs)"
    proof (cases m')
      case Nil
      with cs b have "dot_tail cs" by (simp add: dot_tail_iff)
      with c show ?thesis by simp
    next
      case (Cons x xs)
      with cs m sp b have "cs = m' @ DOT # b # q \<and> m' \<noteq> [] \<and>
          (\<forall>x \<in> set m'. \<not> is_space x) \<and> \<not> is_space b"
        by simp
      then have "\<exists>m b q. cs = m @ DOT # b # q \<and> m \<noteq> [] \<and>
          (\<forall>x \<in> set m. \<not> is_space x) \<and> \<not> is_space b"
        by blast
      with IH have "domain_part cs" by simp
      with c show ?thesis by simp
    qed
  qed
qed

lemma at_tail_iff:
  "at_tail s \<longleftrightarrow>
     (\<exists>m b q. s = AT # m @ DOT # b # q \<and> m \<noteq> [] \<and> (\<forall>c \<in> set m. \<not> is_space c) \<and> \<not> is_space b)"
  by (cases s) (auto simp: domain_part_iff)

lemma local_part_iff:
  "local_part s \<longleftrightarrow>
     (\<exists>l m b q. s = l @ AT # m @ DOT # b # q \<and> l \<noteq> [] \<and> (\<forall>c \<in> set l. \<not> is_space c) \<and>
        m \<noteq> [] \<and> (\<forall>c \<in> set m. \<not> is_space c) \<and> \<not> is_space b)"
proof (induction s)
  case Nil
  then show ?case by simp
next
  case (Cons c cs)
  note IH = Cons.IH
  show ?case
  proof
    assume "local_part (c # cs)"
    then have c: "\<not> is_space c" and d: "at_tail cs \<or> local_part cs" by auto
    from d show "\<exists>l m b q. c # cs = l @ AT # m @ DOT # b # q \<and> l \<noteq> [] \<and>
        (\<forall>c \<in> set l. \<not> is_space c) \<and> m \<noteq> [] \<and> (\<forall>c \<in> set m. \<not> is_space c) \<and> \<not> is_space b"
    proof
      assume "at_tail cs"
      then obtain m b q where "cs = AT # m @ DOT # b # q" "m \<noteq> []"
        "\<forall>x \<in> set m. \<not> is_space x" "\<not> is_space b"
        by (auto simp: at_tail_iff)
      with c have "c # cs = [c] @ AT # m @ DOT # b # q \<and> [c] \<noteq> [] \<and>
          (\<forall>x \<in> set [c]. \<not> is_space x) \<and> m \<noteq> [] \<and> (\<forall>x \<in> set m. \<not> is_space x) \<and> \<not> is_space b"
        by simp
      then show ?thesis by blast
    next
      assume "local_part cs"
      with IH obtain l m b q where
        "cs = l @ AT # m @ DOT # b # q" "l \<noteq> []" "\<forall>x \<in> set l. \<not> is_space x"
        "m \<noteq> []" "\<forall>x \<in> set m. \<not> is_space x" "\<not> is_space b"
        by blast
      with c have "c # cs = (c # l) @ AT # m @ DOT # b # q \<and> c # l \<noteq> [] \<and>
          (\<forall>x \<in> set (c # l). \<not> is_space x) \<and> m \<noteq> [] \<and> (\<forall>x \<in> set m. \<not> is_space x) \<and> \<not> is_space b"
        by simp
      then show ?thesis by blast
    qed
  next
    assume "\<exists>l m b q. c # cs = l @ AT # m @ DOT # b # q \<and> l \<noteq> [] \<and>
        (\<forall>c \<in> set l. \<not> is_space c) \<and> m \<noteq> [] \<and> (\<forall>c \<in> set m. \<not> is_space c) \<and> \<not> is_space b"
    then obtain l m b q where
      e: "c # cs = l @ AT # m @ DOT # b # q" and ne: "l \<noteq> []"
      and sl: "\<forall>x \<in> set l. \<not> is_space x"
      and rest: "m \<noteq> []" "\<forall>x \<in> set m. \<not> is_space x" "\<not> is_space b"
      by blast
    from ne obtain l' where l: "l = c # l'" using e by (cases l) auto
    with e have cs: "cs = l' @ AT # m @ DOT # b # q" by simp
    from l sl have c: "\<not> is_space c" by simp
    show "local_part (c # cs)"
    proof (cases l')
      case Nil
      with cs rest have "cs = AT # m @ DOT # b # q \<and> m \<noteq> [] \<and>
          (\<forall>x \<in> set m. \<not> is_space x) \<and> \<not> is_space b"
        by simp
      then have "\<exists>m b q. cs = AT # m @ DOT # b # q \<and> m \<noteq> [] \<and>
          (\<forall>x \<in> set m. \<not> is_space x) \<and> \<not> is_space b"
        by blast
      then have "at_tail cs" by (simp only: at_tail_iff)
      with c show ?thesis by simp
    next
      case (Cons x xs)
      with cs l sl rest have "cs = l' @ AT # m @ DOT # b # q \<and> l' \<noteq> [] \<and>
          (\<forall>x \<in> set l'. \<not> is_space x) \<and> m \<noteq> [] \<and> (\<forall>x \<in> set m. \<not> is_space x) \<and>
          \<not> is_space b"
        by simp
      then have "\<exists>l m b q. cs = l @ AT # m @ DOT # b # q \<and> l \<noteq> [] \<and>
          (\<forall>x \<in> set l. \<not> is_space x) \<and> m \<noteq> [] \<and> (\<forall>x \<in> set m. \<not> is_space x) \<and>
          \<not> is_space b"
        by blast
      with IH have "local_part cs" by simp
      with c show ?thesis by simp
    qed
  qed
qed

lemma email_test_iff:
  "email_test s \<longleftrightarrow> (\<exists>p t. s = p @ t \<and> local_part t)"
proof (induction s)
  case Nil
  then show ?case by simp
next
  case (Cons c cs)
  note IH = Cons.IH
  show ?case
  proof
    assume "email_test (c # cs)"
    then have "local_part (c # cs) \<or> email_test cs" by simp
    then show "\<exists>p t. c # cs = p @ t \<and> local_part t"
    proof
      assume "local_part (c # cs)"
      then have "c # cs = [] @ (c # cs) \<and> local_part (c # cs)" by simp
      then show ?thesis by blast
    next
      assume "email_test cs"
      with IH obtain p t where "cs = p @ t" "local_part t" by blast
      then have "c # cs = (c # p) @ t \<and> local_part t" by simp
      then show ?thesis by blast
    qed
  next
    assume "\<exists>p t. c # cs = p @ t \<and> local_part t"
    then obtain p t where e: "c # cs = p @ t" and t: "local_part t" by blast
    show "email_test (c # cs)"
    proof (cases p)
      case Nil
      with e have "t = c # cs" by simp
      with t have "local_part (c # cs)" by simp
      then show ?thesis by simp
    next
      case (Cons x xs)
      with e have "cs = xs @ t" by simp
      with t have "\<exists>p t. cs = p @ t \<and> local_part t" by blast
      with IH have "email_test cs" by simp
      then show ?thesis by simp
    qed
  qed
qed


lemma email_test_matches:
  "email_test s \<longleftrightarrow>
     (\<exists>p l m b q. s = p @ l @ AT # m @ DOT # b # q \<and> l \<noteq> [] \<and>
        (\<forall>c \<in> set l. \<not> is_space c) \<and> m \<noteq> [] \<and> (\<forall>c \<in> set m. \<not> is_space c) \<and>
        \<not> is_space b)"
  unfolding email_test_iff local_part_iff by blast

lemma keys_empty_iff: "(length (keys m) = 0) = (m = Map.empty)"
proof
  assume "length (keys m) = 0"
  then have k: "keys m = []" by simp
  show "m = Map.empty"
  proof
    fix f
    from k show "m f = None"
      by (cases f) (auto simp: keys_def split: if_splits)
  qed
next
  assume "m = Map.empty"
  then show "length (keys m) = 0" by (simp add: keys_def)
qed

lemma validateForm_snd: "snd (validateForm s) = s\<lparr>errors := errors (snd (validateForm s))\<rparr>"
  by (simp add: validateForm_def Let_def split del: if_split cong: if_cong)

lemma validateForm_fst_keys:
  "fst (validateForm s) = (length (keys (errors (snd (validateForm s)))) = 0)"
  by (simp add: validateForm_def Let_def split del: if_split cong: if_cong)

lemma validateForm_fst: "fst (validateForm s) = (errors (snd (validateForm s)) = Map.empty)"
  by (simp only: validateForm_fst_keys keys_empty_iff)

lemma validateForm_authError:
  "fst (validateForm (s\<lparr>authError := a\<rparr>)) = fst (validateForm s)"
  by (simp add: validateForm_def Let_def split del: if_split cong: if_cong)

lemma validateForm_email:
  "\<not> showForgotPassword s \<Longrightarrow> formData s Email = [] \<or> \<not> email_test (formData s Email) \<Longrightarrow>
   errors (snd (validateForm s)) Email = Some (js ''Email is required'') \<or>
   errors (snd (validateForm s)) Email = Some (js ''Email is invalid'')"
  by (auto simp add: validateForm_def Let_def trim_Nil falsy_def)

lemma validateForm_resetEmail:
  "showForgotPassword s \<Longrightarrow> formData s ResetEmail = [] \<or> \<not> email_test (formData s ResetEmail) \<Longrightarrow>
   errors (snd (validateForm s)) ResetEmail = Some (js ''Email is required'') \<or>
   errors (snd (validateForm s)) ResetEmail = Some (js ''Email is invalid'')"
  by (auto simp add: validateForm_def Let_def trim_Nil falsy_def)

lemma validateForm_confirm:
  "\<not> showForgotPassword s \<Longrightarrow> activeTab s = SignupTab \<Longrightarrow>
   formData s Password \<noteq> formData s ConfirmPassword \<Longrightarrow>
   errors (snd (validateForm s)) ConfirmPassword = Some (js ''Passwords do not match'')"
  by (simp add: validateForm_def Let_def)

lemma validateForm_errors_authError:
  "errors (snd (validateForm (s\<lparr>authError := a\<rparr>))) = errors (snd (validateForm s))"
  by (simp add: validateForm_def Let_def split del: if_split cong: if_cong)

lemma validateForm_snd_authError:
  "snd (validateForm (s\<lparr>authError := a\<rparr>)) = s\<lparr>authError := a, errors := errors (snd (validateForm s))\<rparr>"
  by (subst validateForm_snd) (simp add: validateForm_errors_authError)

lemma handleSubmit_unfold:
  "handleSubmit s =
     (if fst (validateForm (s\<lparr>authError := []\<rparr>)) then
        (let s3 = (snd (validateForm (s\<lparr>authError := []\<rparr>)))\<lparr>isLoading := True\<rparr>
            in if showForgotPassword s then
                 api_post ''/auth/forgot-password'' [(''email'', formData s ResetEmail)] True s3
               else if activeTab s = LoginTab then
                 api_post ''/auth/login''
                   [(''email'', formData s Email), (''password'', formData s Password)] False s3
               else
                 api_post ''/auth/register''
                   [(''name'', formData s Name), (''email'', formData s Email),
                    (''password'', formData s Password)] False s3)
      else snd (validateForm (s\<lparr>authError := []\<rparr>)))"
  by (simp add: handleSubmit_def Let_def split: prod.splits)

lemma handleSubmit_blocked:
  "\<not> fst (validateForm s) \<Longrightarrow>
   handleSubmit s = s\<lparr>authError := [], errors := errors (snd (validateForm s))\<rparr>"
  by (simp add: handleSubmit_unfold validateForm_authError validateForm_snd_authError)

lemma handleSubmit_valid:
  assumes "fst (validateForm s)"
  shows "handleSubmit s =
     s\<lparr>authError := [], errors := Map.empty, isLoading := True,
       inflight := inflight s @
         [if showForgotPassword s then
            \<lparr>endpoint = ''/auth/forgot-password'', payload = [(''email'', formData s ResetEmail)],
             forgot = True\<rparr>
          else if activeTab s = LoginTab then
            \<lparr>endpoint = ''/auth/login'',
             payload = [(''email'', formData s Email), (''password'', formData s Password)],
             forgot = False\<rparr>
          else
            \<lparr>endpoint = ''/auth/register'',
             payload = [(''name'', formData s Name), (''email'', formData s Email),
                        (''password'', formData s Password)],
             forgot = False\<rparr>]\<rparr>"
proof -
  from assms have e: "errors (snd (validateForm s)) = Map.empty"
    by (simp add: validateForm_fst)
  from assms have v: "fst (validateForm (s\<lparr>authError := []\<rparr>))"
    by (simp add: validateForm_authError)
  show ?thesis
    unfolding handleSubmit_unfold
    by (simp only: v if_True validateForm_snd_authError e)
       (simp add: Let_def api_post_def)
qed

text \<open>
  Claim C2. When the email field that the current mode validates (\<open>ResetEmail\<close> in
  forgot-password mode, \<open>Email\<close> otherwise) is empty or does not match the pattern,
  \<open>validateForm\<close> returns false and records an error under that field, and
  \<open>handleSubmit\<close> only clears \<open>authError\<close> and installs the errors: \<open>isLoading\<close>
  stays as it was and no request is dispatched.
\<close>

theorem invalid_email_blocks_submission:
  assumes f: "f = (if showForgotPassword s then ResetEmail else Email)"
    and bad: "formData s f = [] \<or> \<not> email_test (formData s f)"
  shows "\<not> fst (validateForm s) \<and>
         (errors (snd (validateForm s)) f = Some (js ''Email is required'') \<or>
          errors (snd (validateForm s)) f = Some (js ''Email is invalid'')) \<and>
         handleSubmit s = s\<lparr>authError := [], errors := errors (snd (validateForm s))\<rparr> \<and>
         inflight (handleSubmit s) = inflight s \<and>
         inflight (step s SubmitForm) = inflight s"
proof -
  have e: "errors (snd (validateForm s)) f = Some (js ''Email is required'') \<or>
           errors (snd (validateForm s)) f = Some (js ''Email is invalid'')"
  proof (cases "showForgotPassword s")
    case True
    with f bad show ?thesis using validateForm_resetEmail [of s] by simp
  next
    case False
    with f bad show ?thesis using validateForm_email [of s] by simp
  qed
  then have "errors (snd (validateForm s)) \<noteq> Map.empty"
    by (metis option.distinct(1))
  then have v: "\<not> fst (validateForm s)"
    by (simp add: validateForm_fst)
  then have h: "handleSubmit s = s\<lparr>authError := [], errors := errors (snd (validateForm s))\<rparr>"
    by (rule handleSubmit_blocked)
  then have i: "inflight (handleSubmit s) = inflight s"
    by simp
  from v e h i show ?thesis by simp
qed

text \<open>The scenario of the specification: forgot-password with \<^verbatim>\<open>bad-email\<close>.\<close>

theorem invalid_email_blocks_submission_witness:
  "formData bad_reset ResetEmail = js ''bad-email'' \<and>
   \<not> email_test (formData bad_reset ResetEmail) \<and>
   \<not> fst (validateForm bad_reset) \<and>
   errors (handleSubmit bad_reset) ResetEmail = Some (js ''Email is invalid'') \<and>
   inflight (step bad_reset SubmitForm) = []"
proof -
  have f: "ResetEmail = (if showForgotPassword bad_reset then ResetEmail else Email)"
    by (simp add: bad_reset_def init_def)
  have v: "formData bad_reset ResetEmail = js ''bad-email''"
    by (simp add: bad_reset_def init_def)
  have t: "\<not> email_test (js ''bad-email'')"
    by (simp add: js_def is_space_def AT_def DOT_def)
  have r: "trim (js ''bad-email'') \<noteq> []"
    by (simp add: js_def trim_def is_space_def)
  have m: "js ''Email is required'' \<noteq> js ''Email is invalid''"
    by (simp add: js_def)
  have bad: "formData bad_reset ResetEmail = [] \<or> \<not> email_test (formData bad_reset ResetEmail)"
    using v t by simp
  have i: "inflight bad_reset = []"
    by (simp add: bad_reset_def init_def)
  have e: "errors (snd (validateForm bad_reset)) ResetEmail = Some (js ''Email is invalid'')"
    using t r by (simp add: validateForm_def Let_def bad_reset_def init_def falsy_def)
  from invalid_email_blocks_submission [OF f bad] v t i e show ?thesis
    by simp
qed

text \<open>
  Claim C6. In signup mode, whenever \<open>Password\<close> and \<open>ConfirmPassword\<close> differ,
  \<open>validateForm\<close> returns false and records \<^verbatim>\<open>Passwords do not match\<close> under
  \<open>ConfirmPassword\<close>; the submission stops there and dispatches nothing.
\<close>

theorem mismatched_passwords_block_signup:
  assumes "\<not> showForgotPassword s" and "activeTab s = SignupTab"
    and "formData s Password \<noteq> formData s ConfirmPassword"
  shows "\<not> fst (validateForm s) \<and>
         errors (snd (validateForm s)) ConfirmPassword = Some (js ''Passwords do not match'') \<and>
         handleSubmit s = s\<lparr>authError := [], errors := errors (snd (validateForm s))\<rparr> \<and>
         errors (handleSubmit s) ConfirmPassword = Some (js ''Passwords do not match'') \<and>
         inflight (handleSubmit s) = inflight s \<and>
         inflight (step s SubmitForm) = inflight s"
proof -
  from assms have e: "errors (snd (validateForm s)) ConfirmPassword = Some (js ''Passwords do not match'')"
    by (rule validateForm_confirm)
  then have "errors (snd (validateForm s)) \<noteq> Map.empty"
    by (metis option.distinct(1))
  then have v: "\<not> fst (validateForm s)"
    by (simp add: validateForm_fst)
  then have h: "handleSubmit s = s\<lparr>authError := [], errors := errors (snd (validateForm s))\<rparr>"
    by (rule handleSubmit_blocked)
  then have i: "inflight (handleSubmit s) = inflight s"
    by simp
  from h e have c: "errors (handleSubmit s) ConfirmPassword = Some (js ''Passwords do not match'')"
    by simp
  from v e h i c show ?thesis by simp
qed

text \<open>A signup with \<^verbatim>\<open>secret1\<close> and \<^verbatim>\<open>secret2\<close>.\<close>

theorem mismatched_passwords_block_signup_witness:
  "formData mismatch_signup Password \<noteq> formData mismatch_signup ConfirmPassword \<and>
   \<not> fst (validateForm mismatch_signup) \<and>
   errors (handleSubmit mismatch_signup) ConfirmPassword = Some (js ''Passwords do not match'') \<and>
   inflight (step mismatch_signup SubmitForm) = []"
proof -
  have a: "\<not> showForgotPassword mismatch_signup"
    by (simp add: mismatch_signup_def init_def)
  have b: "activeTab mismatch_signup = SignupTab"
    by (simp add: mismatch_signup_def init_def)
  have c: "formData mismatch_signup Password \<noteq> formData mismatch_signup ConfirmPassword"
    by (simp add: mismatch_signup_def init_def js_def)
  have i: "inflight mismatch_signup = []"
    by (simp add: mismatch_signup_def init_def)
  from mismatched_passwords_block_signup [OF a b c] c i show ?thesis
    by simp
qed

section \<open>Properties of a settled submission\<close>

lemma or_else_truthy: "or_else (Some m) d = (if m = [] then d else m)"
  by (simp add: or_else_def falsy_def)

lemma or_else_nonempty: "d \<noteq> [] \<Longrightarrow> or_else a d \<noteq> []"
  by (cases a) (simp_all add: or_else_def falsy_def)

lemma customMessage_nonempty:
  "\<exists>m. customMessage (on_response_error e) = Some m \<and> m \<noteq> []"
  by (simp add: on_response_error_def or_else_nonempty js_def split: option.splits)

lemma settle_Rejected:
  "settle c (Rejected e) s = s\<lparr>authError := catch_message (on_response_error e), isLoading := False\<rparr>"
  by (simp add: settle_def)

lemma catch_message_network:
  "code e = Some ''ERR_NETWORK'' \<Longrightarrow>
   catch_message (on_response_error e) =
     js ''Unable to connect to the server. Please make sure the backend is running.''"
  by (simp add: catch_message_def on_response_error_def or_else_truthy js_def)

lemma catch_message_timeout:
  "code e \<noteq> Some ''ERR_NETWORK'' \<Longrightarrow> code e = Some ''ECONNABORTED'' \<Longrightarrow>
   catch_message (on_response_error e) = js ''Request timed out. Please try again.''"
  by (simp add: catch_message_def on_response_error_def or_else_truthy js_def)

lemma catch_message_server:
  "code e \<noteq> Some ''ERR_NETWORK'' \<Longrightarrow> code e \<noteq> Some ''ECONNABORTED'' \<Longrightarrow>
   response e = Some msg \<Longrightarrow>
   catch_message (on_response_error e) = or_else msg (js ''Server error occurred.'')"
  by (simp add: catch_message_def on_response_error_def or_else_truthy or_else_nonempty js_def)

lemma catch_message_no_response:
  "code e \<noteq> Some ''ERR_NETWORK'' \<Longrightarrow> code e \<noteq> Some ''ECONNABORTED'' \<Longrightarrow>
   response e = None \<Longrightarrow>
   catch_message (on_response_error e) =
     (if request e then js ''No response from server. Please check your network connection.''
      else js ''An error occurred while processing your request.'')"
  by (simp add: catch_message_def on_response_error_def or_else_truthy js_def)

lemma catch_message_nonempty: "catch_message (on_response_error e) \<noteq> []"
  using customMessage_nonempty [of e] by (auto simp: catch_message_def or_else_truthy)


text \<open>
  Claim C3. When the awaited call rejects, the message put into \<open>authError\<close> is chosen
  in this order: the unreachable-server message when the error code is
  \<^verbatim>\<open>ERR_NETWORK\<close> (which is how the client reports a refused connection), else the
  timeout message when the code is \<^verbatim>\<open>ECONNABORTED\<close>, else the message the server
  sent when there is a response with a non-empty \<^verbatim>\<open>msg\<close>, else a fixed fallback
  text. Whatever the outcome, resolved or rejected, \<open>isLoading\<close> is false afterwards.
\<close>

theorem failure_message_priority:
  "isLoading (settle c r s) = False \<and>
   (code e = Some ''ERR_NETWORK'' \<longrightarrow>
      authError (settle c (Rejected e) s) =
        js ''Unable to connect to the server. Please make sure the backend is running.'') \<and>
   (code e \<noteq> Some ''ERR_NETWORK'' \<and> code e = Some ''ECONNABORTED'' \<longrightarrow>
      authError (settle c (Rejected e) s) = js ''Request timed out. Please try again.'') \<and>
   (code e \<noteq> Some ''ERR_NETWORK'' \<and> code e \<noteq> Some ''ECONNABORTED'' \<and>
    response e = Some (Some m) \<and> m \<noteq> [] \<longrightarrow>
      authError (settle c (Rejected e) s) = m) \<and>
   (code e \<noteq> Some ''ERR_NETWORK'' \<and> code e \<noteq> Some ''ECONNABORTED'' \<and>
    (response e = Some None \<or> response e = Some (Some [])) \<longrightarrow>
      authError (settle c (Rejected e) s) = js ''Server error occurred.'') \<and>
   (code e \<noteq> Some ''ERR_NETWORK'' \<and> code e \<noteq> Some ''ECONNABORTED'' \<and> response e = None \<longrightarrow>
      authError (settle c (Rejected e) s) =
        (if request e then js ''No response from server. Please check your network connection.''
         else js ''An error occurred while processing your request.''))"
proof -
  have l: "isLoading (settle c r s) = False"
    by (simp add: settle_def)
  have a: "authError (settle c (Rejected e) s) = catch_message (on_response_error e)"
    by (simp add: settle_Rejected)
  have srv: "code e \<noteq> Some ''ERR_NETWORK'' \<Longrightarrow> code e \<noteq> Some ''ECONNABORTED'' \<Longrightarrow>
             response e = Some (Some m) \<Longrightarrow> m \<noteq> [] \<Longrightarrow>
             catch_message (on_response_error e) = m"
    by (simp add: catch_message_server or_else_truthy)
  have gen: "code e \<noteq> Some ''ERR_NETWORK'' \<Longrightarrow> code e \<noteq> Some ''ECONNABORTED'' \<Longrightarrow>
             response e = Some None \<or> response e = Some (Some []) \<Longrightarrow>
             catch_message (on_response_error e) = js ''Server error occurred.''"
    by (auto simp: catch_message_server or_else_def falsy_def)
  show ?thesis
    using l srv gen
    by (simp add: a catch_message_network catch_message_timeout catch_message_no_response)
qed

text \<open>One error of each kind, and a resolved call.\<close>

theorem failure_message_priority_witness:
  "authError (settle login_call (Rejected refused) waiting) =
     js ''Unable to connect to the server. Please make sure the backend is running.'' \<and>
   isLoading (settle login_call (Rejected refused) waiting) = False \<and>
   authError (settle login_call (Rejected timed_out) waiting) =
     js ''Request timed out. Please try again.'' \<and>
   authError (settle login_call (Rejected wrong_password) waiting) = js ''Invalid credentials'' \<and>
   authError (settle login_call (Rejected server_failure) waiting) = js ''Server error occurred.'' \<and>
   isLoading (settle login_call (Resolved (Some (js ''abc''))) waiting) = False"
proof -
  have n: "js ''Invalid credentials'' \<noteq> []"
    by (simp add: js_def)
  from failure_message_priority [of login_call "Rejected refused" waiting refused]
  have 1: "authError (settle login_call (Rejected refused) waiting) =
             js ''Unable to connect to the server. Please make sure the backend is running.'' \<and>
           isLoading (settle login_call (Rejected refused) waiting) = False"
    by (simp add: refused_def)
  from failure_message_priority [of login_call "Rejected timed_out" waiting timed_out]
  have 2: "authError (settle login_call (Rejected timed_out) waiting) =
             js ''Request timed out. Please try again.''"
    by (simp add: timed_out_def)
  from failure_message_priority
         [of login_call "Rejected wrong_password" waiting wrong_password "js ''Invalid credentials''"] n
  have 3: "authError (settle login_call (Rejected wrong_password) waiting) = js ''Invalid credentials''"
    by (simp add: wrong_password_def)
  from failure_message_priority [of login_call "Rejected server_failure" waiting server_failure]
  have 4: "authError (settle login_call (Rejected server_failure) waiting) = js ''Server error occurred.''"
    by (simp add: server_failure_def)
  from failure_message_priority [of login_call "Resolved (Some (js ''abc''))" waiting]
  have 5: "isLoading (settle login_call (Resolved (Some (js ''abc''))) waiting) = False"
    by simp
  from 1 2 3 4 5 show ?thesis by simp
qed


lemma login_form_valid: "fst (validateForm login_form)"
  by code_simp

lemma reset_form_valid: "fst (validateForm reset_form)"
  by code_simp

text \<open>
  Claim C4. When the service answers an outstanding submission with an error, the
  message shown is not empty (it is the server's own \<^verbatim>\<open>msg\<close> when that is present
  and the failure is neither unreachable-server nor timeout), and \<open>localStorage\<close> is
  left exactly as it was: no token is written and a stored token is unchanged.
\<close>

theorem rejected_login_stores_no_token:
  assumes "inflight s = c # cs"
  shows "localStorage (step s (Settle (Rejected e))) = localStorage s \<and>
         location (step s (Settle (Rejected e))) = location s \<and>
         authError (step s (Settle (Rejected e))) \<noteq> [] \<and>
         error_banner_shown (step s (Settle (Rejected e))) \<and>
         isLoading (step s (Settle (Rejected e))) = False \<and>
         (code e \<noteq> Some ''ERR_NETWORK'' \<and> code e \<noteq> Some ''ECONNABORTED'' \<and>
          response e = Some (Some m) \<and> m \<noteq> [] \<longrightarrow>
            authError (step s (Settle (Rejected e))) = m)"
proof -
  have st: "step s (Settle (Rejected e)) =
            s\<lparr>inflight := cs, authError := catch_message (on_response_error e), isLoading := False\<rparr>"
    using assms by (simp add: settle_Rejected)
  have srv: "code e \<noteq> Some ''ERR_NETWORK'' \<Longrightarrow> code e \<noteq> Some ''ECONNABORTED'' \<Longrightarrow>
             response e = Some (Some m) \<Longrightarrow> m \<noteq> [] \<Longrightarrow>
             catch_message (on_response_error e) = m"
    by (simp add: catch_message_server or_else_truthy)
  show ?thesis
    using srv unfolding st
    by (simp add: catch_message_nonempty error_banner_shown_def falsy_def)
qed

text \<open>A login with a wrong password, while an older token is in storage.\<close>

theorem rejected_login_stores_no_token_witness:
  "inflight (handleSubmit login_form) = [login_call] \<and>
   localStorage (step (handleSubmit login_form) (Settle (Rejected wrong_password))) ''token'' =
     Some (js ''old'') \<and>
   authError (step (handleSubmit login_form) (Settle (Rejected wrong_password))) =
     js ''Invalid credentials'' \<and>
   error_banner_shown (step (handleSubmit login_form) (Settle (Rejected wrong_password)))"
proof -
  have i: "inflight (handleSubmit login_form) = [login_call]"
    by (simp add: handleSubmit_valid [OF login_form_valid])
       (simp add: login_form_def login_call_def init_def)
  have l: "localStorage (handleSubmit login_form) ''token'' = Some (js ''old'')"
    by (simp add: handleSubmit_valid [OF login_form_valid])
       (simp add: login_form_def init_def)
  have n: "js ''Invalid credentials'' \<noteq> []"
    by (simp add: js_def)
  from rejected_login_stores_no_token [OF i, of wrong_password "js ''Invalid credentials''"] i l n
  show ?thesis
    by (simp add: wrong_password_def)
qed

text \<open>
  Claim C5. A valid submission dispatches one call \<open>c\<close>. When it was made in login or
  signup mode and the call resolves with a token \<open>t\<close>, the token is stored under the
  key \<^verbatim>\<open>token\<close> and the location becomes \<^verbatim>\<open>/dashboard\<close>; when it was made in
  forgot-password mode and the call resolves, the panel renders the reset-success view
  and neither storage nor location changes. Here \<open>s'\<close> is the state at the moment the
  call settles.
\<close>

theorem success_stores_token_or_shows_reset:
  assumes v: "fst (validateForm s)" and c: "c = last (inflight (handleSubmit s))"
  shows "inflight (handleSubmit s) = inflight s @ [c] \<and>
         (\<not> showForgotPassword s \<longrightarrow>
            endpoint c = (if activeTab s = LoginTab then ''/auth/login'' else ''/auth/register'') \<and>
            localStorage (settle c (Resolved (Some t)) s') = (localStorage s')(''token'' \<mapsto> t) \<and>
            location (settle c (Resolved (Some t)) s') = ''/dashboard'') \<and>
         (showForgotPassword s \<longrightarrow>
            endpoint c = ''/auth/forgot-password'' \<and>
            resetSuccess (settle c (Resolved b) s') \<and>
            mode (settle c (Resolved b) s') = ResetSuccess \<and>
            localStorage (settle c (Resolved b) s') = localStorage s' \<and>
            location (settle c (Resolved b) s') = location s')"
proof -
  note h = handleSubmit_valid [OF v]
  have i: "inflight (handleSubmit s) = inflight s @ [c]"
    unfolding c by (subst (1 2) h) simp
  have f: "forgot c = showForgotPassword s"
    unfolding c by (subst h) simp
  have e: "endpoint c =
             (if showForgotPassword s then ''/auth/forgot-password''
              else if activeTab s = LoginTab then ''/auth/login'' else ''/auth/register'')"
    unfolding c by (subst h) simp
  show ?thesis
    using i f e by (simp add: settle_def mode_def to_string_def)
qed

text \<open>A login that returns the token \<^verbatim>\<open>abc\<close>, and a reset request.\<close>

theorem success_stores_token_or_shows_reset_witness:
  "localStorage (settle (last (inflight (handleSubmit login_form))) (Resolved (Some (js ''abc''))) 
                   (handleSubmit login_form)) ''token'' = Some (js ''abc'') \<and>
   location (settle (last (inflight (handleSubmit login_form))) (Resolved (Some (js ''abc'')))
               (handleSubmit login_form)) = ''/dashboard'' \<and>
   mode (settle (last (inflight (handleSubmit reset_form))) (Resolved None)
           (handleSubmit reset_form)) = ResetSuccess \<and>
   localStorage (settle (last (inflight (handleSubmit reset_form))) (Resolved None)
                   (handleSubmit reset_form)) ''token'' = None"
proof -
  have a: "\<not> showForgotPassword login_form"
    by (simp add: login_form_def init_def)
  have b: "showForgotPassword reset_form"
    by (simp add: reset_form_def init_def)
  have l: "localStorage (handleSubmit reset_form) ''token'' = None"
    by (simp add: handleSubmit_valid [OF reset_form_valid])
       (simp add: reset_form_def init_def)
  from success_stores_token_or_shows_reset [OF login_form_valid refl,
         of "js ''abc''" "handleSubmit login_form"] a
  have 1: "localStorage (settle (last (inflight (handleSubmit login_form)))
                           (Resolved (Some (js ''abc''))) (handleSubmit login_form)) ''token'' =
             Some (js ''abc'') \<and>
           location (settle (last (inflight (handleSubmit login_form)))
                       (Resolved (Some (js ''abc''))) (handleSubmit login_form)) = ''/dashboard''"
    by simp
  from success_stores_token_or_shows_reset [OF reset_form_valid refl,
         of _ "handleSubmit reset_form" None] b l
  have 2: "mode (settle (last (inflight (handleSubmit reset_form))) (Resolved None)
                   (handleSubmit reset_form)) = ResetSuccess \<and>
           localStorage (settle (last (inflight (handleSubmit reset_form))) (Resolved None)
                   (handleSubmit reset_form)) ''token'' = None"
    by simp
  from 1 2 show ?thesis by simp
qed

section \<open>Properties of the dashboard\<close>

text \<open>
  Claim C10. For any two non-empty tokens under the key \<^verbatim>\<open>token\<close>, whatever else
  the storage holds, the dashboard reaches the same state and renders the fixed user
  \<^verbatim>\<open>Demo User\<close>, \<^verbatim>\<open>user@example.com\<close>; without the key it redirects to
  \<^verbatim>\<open>/\<close>.
\<close>

theorem dashboard_ignores_token_content:
  assumes "ta \<noteq> []" and "tb \<noteq> []"
  shows "Dashboard (sa(''token'' \<mapsto> ta)) now = Dashboard (sb(''token'' \<mapsto> tb)) now \<and>
         dashboard_render (Dashboard (sa(''token'' \<mapsto> ta)) now) =
           Profile (Some (js ''Demo User'')) (Some (js ''user@example.com'')) (Some now) \<and>
         href (Dashboard (sa(''token'' \<mapsto> ta)) now) = ''/dashboard'' \<and>
         (st ''token'' = None \<longrightarrow>
            href (Dashboard st now) = ''/'' \<and> dashboard_render (Dashboard st now) = Spinner)"
  using assms
  by (simp add: Dashboard_def dashboard_effect_def dashboard_init_def dashboard_render_def
      falsy_def)

text \<open>The tokens \<^verbatim>\<open>abc\<close> and \<^verbatim>\<open>xyz.123\<close>, and an empty storage.\<close>

theorem dashboard_ignores_token_content_witness:
  "Dashboard [''token'' \<mapsto> js ''abc''] (js ''2026-01-01T00:00:00.000Z'') =
     Dashboard [''token'' \<mapsto> js ''xyz.123''] (js ''2026-01-01T00:00:00.000Z'') \<and>
   dashboard_render (Dashboard [''token'' \<mapsto> js ''abc''] (js ''2026-01-01T00:00:00.000Z'')) =
     Profile (Some (js ''Demo User'')) (Some (js ''user@example.com''))
       (Some (js ''2026-01-01T00:00:00.000Z'')) \<and>
   href (Dashboard Map.empty (js ''2026-01-01T00:00:00.000Z'')) = ''/''"
proof -
  have a: "js ''abc'' \<noteq> []" and b: "js ''xyz.123'' \<noteq> []"
    by (simp_all add: js_def)
  have e: "(Map.empty :: string \<rightharpoonup> jsstring) ''token'' = None"
    by simp
  from dashboard_ignores_token_content
         [OF a b, where sa = Map.empty and sb = Map.empty and st = Map.empty
            and now = "js ''2026-01-01T00:00:00.000Z''"] e
  show ?thesis by blast
qed

section \<open>Properties of editing a field\<close>

text \<open>
  The deletion in \<open>handleInputChange\<close> is guarded by the truthiness of the entry.
  When the entry of the edited field is absent or a non-empty message, the handler sets
  that field's value and removes that field's entry, and nothing else.
\<close>

lemma handleInputChange_clears:
  assumes "errors s name \<noteq> Some []"
  shows "handleInputChange name v s =
           s\<lparr>formData := (formData s)(name := v), errors := (errors s)(name := None)\<rparr>"
proof (cases "errors s name")
  case None
  then have "(errors s)(name := None) = errors s" by (simp add: fun_upd_idem)
  with None show ?thesis by (simp add: handleInputChange_def)
next
  case (Some m)
  with assms have "m \<noteq> []" by simp
  with Some show ?thesis by (simp add: handleInputChange_def falsy_def)
qed

text \<open>
  Every message \<open>validateForm\<close> records is a non-empty literal, and the only other
  writes to \<open>errors\<close> are the empty map and the deletion of an entry, so no state
  reached from the initial one holds an empty message.
\<close>

lemma validateForm_messages:
  "errors (snd (validateForm s)) f = Some m \<Longrightarrow> m \<noteq> []"
  by (auto simp: validateForm_def Let_def js_def split: if_splits)

lemma handleSubmit_messages:
  assumes "errors (handleSubmit s) f = Some m"
  shows "m \<noteq> []"
proof (cases "fst (validateForm s)")
  case True
  from assms show ?thesis by (simp add: handleSubmit_valid [OF True])
next
  case False
  from assms have "errors (snd (validateForm s)) f = Some m"
    by (simp add: handleSubmit_blocked [OF False])
  then show ?thesis by (rule validateForm_messages)
qed

lemma handleInputChange_messages:
  "errors (handleInputChange g v s) f = Some m \<Longrightarrow> errors s f = Some m"
  by (auto simp: handleInputChange_def Let_def split: option.splits if_splits)

lemma step_messages:
  assumes inv: "\<And>f. errors s f \<noteq> Some []"
  shows "errors (step s ev) f \<noteq> Some []"
proof (cases ev)
  case (Change g v)
  then show ?thesis using inv handleInputChange_messages [of g v s f "[]"] by auto
next
  case (ClickTab t)
  then show ?thesis using inv by simp
next
  case ClickToggle
  then show ?thesis using inv by simp
next
  case SubmitForm
  then show ?thesis using inv handleSubmit_messages [of s f "[]"] by auto
next
  case ClickForgot
  then show ?thesis using inv by (simp add: handleForgotPassword_def)
next
  case ClickBack
  then show ?thesis using inv by (simp add: handleBackToLogin_def)
next
  case (Settle r)
  then show ?thesis using inv by (simp add: settle_def split: list.splits outcome.splits)
qed

lemma run_messages:
  "(\<And>f. errors s f \<noteq> Some []) \<Longrightarrow> errors (run s evs) f \<noteq> Some []"
  unfolding run_def
proof (induction evs arbitrary: s f)
  case Nil
  then show ?case by simp
next
  case (Cons ev evs)
  have "\<And>g. errors (step s ev) g \<noteq> Some []"
    using Cons.prems by (rule step_messages)
  from Cons.IH [OF this] show ?case by simp
qed

lemma reachable_messages: "errors (run (init store) evs) f \<noteq> Some []"
  by (rule run_messages) (simp add: init_def)

text \<open>
  Claim C8. For every field name and every error map the panel can hold (the map of any
  state reached from the initial one), editing that field removes exactly that field's
  entry from the map and sets exactly that field's value: the error entries and the
  values of all other fields, and the rest of the state, are unchanged.
\<close>

theorem edit_clears_own_error:
  "handleInputChange name v (run (init store) evs) =
     (run (init store) evs)
       \<lparr>formData := (formData (run (init store) evs))(name := v),
        errors := (errors (run (init store) evs))(name := None)\<rparr> \<and>
   errors (handleInputChange name v (run (init store) evs)) name = None \<and>
   formData (handleInputChange name v (run (init store) evs)) name = v \<and>
   (g \<noteq> name \<longrightarrow>
      errors (handleInputChange name v (run (init store) evs)) g =
        errors (run (init store) evs) g \<and>
      formData (handleInputChange name v (run (init store) evs)) g =
        formData (run (init store) evs) g)"
proof -
  have "errors (run (init store) evs) name \<noteq> Some []"
    by (rule reachable_messages)
  then have "handleInputChange name v (run (init store) evs) =
     (run (init store) evs)
       \<lparr>formData := (formData (run (init store) evs))(name := v),
        errors := (errors (run (init store) evs))(name := None)\<rparr>"
    by (rule handleInputChange_clears)
  then show ?thesis by simp
qed

text \<open>
  The empty login form is submitted, which records an error under the email and one
  under the password; then the email field is edited.
\<close>

theorem edit_clears_own_error_witness:
  "errors (run (init Map.empty) empty_submit) Email = Some (js ''Email is required'') \<and>
   errors (run (init Map.empty) empty_submit) Password = Some (js ''Password is required'') \<and>
   errors (handleInputChange Email (js ''a'') (run (init Map.empty) empty_submit)) Email = None \<and>
   errors (handleInputChange Email (js ''a'') (run (init Map.empty) empty_submit)) Password =
     Some (js ''Password is required'') \<and>
   formData (handleInputChange Email (js ''a'') (run (init Map.empty) empty_submit)) Email =
     js ''a'' \<and>
   formData (handleInputChange Email (js ''a'') (run (init Map.empty) empty_submit)) Password = []"
proof -
  have e: "errors (run (init Map.empty) empty_submit) Email = Some (js ''Email is required'')"
    by code_simp
  have p: "errors (run (init Map.empty) empty_submit) Password =
             Some (js ''Password is required'')"
    by code_simp
  have q: "formData (run (init Map.empty) empty_submit) Password = []"
    by code_simp
  have d: "Password \<noteq> Email"
    by simp
  from edit_clears_own_error [of Email "js ''a''" Map.empty empty_submit Password] e p q d
  show ?thesis by simp
qed

section \<open>Properties of outstanding requests\<close>

lemma handleInputChange_frame:
  "inflight (handleInputChange f v s) = inflight s"
  "isLoading (handleInputChange f v s) = isLoading s"
  "resetSuccess (handleInputChange f v s) = resetSuccess s"
  "showForgotPassword (handleInputChange f v s) = showForgotPassword s"
  "activeTab (handleInputChange f v s) = activeTab s"
  by (simp_all add: handleInputChange_def Let_def split: option.splits)

lemma settle_frame:
  "inflight (settle c r s) = inflight s"
  "isLoading (settle c r s) = False"
  "showForgotPassword (settle c r s) = showForgotPassword s"
  "activeTab (settle c r s) = activeTab s"
  by (simp_all add: settle_def Let_def split: outcome.splits)

lemma handleSubmit_inflight:
  "inflight s = [] \<Longrightarrow>
   (inflight (handleSubmit s) = [] \<and> isLoading (handleSubmit s) = isLoading s) \<or>
   (length (inflight (handleSubmit s)) = 1 \<and> isLoading (handleSubmit s))"
proof (cases "fst (validateForm s)")
  case True
  assume "inflight s = []"
  then show ?thesis by (subst (1 2 3 4) handleSubmit_valid [OF True]) simp
next
  case False
  assume "inflight s = []"
  then show ?thesis by (simp add: handleSubmit_blocked [OF False])
qed

lemma step_one_request:
  assumes "inflight s = [] \<or> (length (inflight s) = 1 \<and> isLoading s)"
  shows "inflight (step s ev) = [] \<or> (length (inflight (step s ev)) = 1 \<and> isLoading (step s ev))"
proof (cases ev)
  case (Change f v)
  with assms show ?thesis by (simp add: handleInputChange_frame)
next
  case (ClickTab t)
  with assms show ?thesis by simp
next
  case ClickToggle
  with assms show ?thesis by simp
next
  case SubmitForm
  show ?thesis
  proof (cases "form_shown s \<and> \<not> submit_disabled s")
    case True
    with assms have "inflight s = []" by (auto simp: submit_disabled_def)
    from handleSubmit_inflight [OF this] True SubmitForm show ?thesis by auto
  next
    case False
    with assms SubmitForm show ?thesis by auto
  qed
next
  case ClickForgot
  with assms show ?thesis by (simp add: handleForgotPassword_def)
next
  case ClickBack
  with assms show ?thesis by (simp add: handleBackToLogin_def)
next
  case (Settle r)
  show ?thesis
  proof (cases "inflight s")
    case Nil
    with Settle show ?thesis by simp
  next
    case (Cons c cs)
    with assms have "cs = []" by auto
    with Cons Settle show ?thesis by (simp add: settle_frame)
  qed
qed

lemma run_one_request:
  "inflight s = [] \<or> (length (inflight s) = 1 \<and> isLoading s) \<Longrightarrow>
   inflight (run s evs) = [] \<or> (length (inflight (run s evs)) = 1 \<and> isLoading (run s evs))"
  unfolding run_def
proof (induction evs arbitrary: s)
  case Nil
  then show ?case by simp
next
  case (Cons ev evs)
  from step_one_request [OF Cons.prems] have "inflight (step s ev) = [] \<or>
    (length (inflight (step s ev)) = 1 \<and> isLoading (step s ev))" .
  from Cons.IH [OF this] show ?case by simp
qed

text \<open>
  Claim C9. Along every sequence of events from the initial state at most one request is
  outstanding, and while one is outstanding \<open>isLoading\<close> is true. In every state with
  \<open>isLoading\<close> true the submit control is disabled and a submit action changes nothing.
\<close>

theorem single_request_in_flight:
  "length (inflight (run (init store) evs)) \<le> 1 \<and>
   (inflight (run (init store) evs) \<noteq> [] \<longrightarrow> isLoading (run (init store) evs)) \<and>
   (isLoading s \<longrightarrow> submit_disabled s \<and> step s SubmitForm = s)"
proof -
  have "inflight (init store) = [] \<or> (length (inflight (init store)) = 1 \<and> isLoading (init store))"
    by (simp add: init_def)
  from run_one_request [OF this, of evs] show ?thesis
    by (auto simp: submit_disabled_def)
qed

text \<open>A valid login submitted twice in a row: the second submit finds the control disabled.\<close>

theorem single_request_in_flight_witness:
  "isLoading (run (init Map.empty) double_submit) \<and>
   length (inflight (run (init Map.empty) double_submit)) = 1 \<and>
   step (run (init Map.empty) double_submit) SubmitForm = run (init Map.empty) double_submit"
proof -
  have l: "isLoading (run (init Map.empty) double_submit)"
    by code_simp
  have n: "inflight (run (init Map.empty) double_submit) \<noteq> []"
    by code_simp
  from single_request_in_flight
         [of Map.empty double_submit "run (init Map.empty) double_submit"] l n
  show ?thesis
    by (cases "inflight (run (init Map.empty) double_submit)") auto
qed

section \<open>Properties of the rendered view\<close>

text \<open>
  Claim C1, as stated, fails in its first half: after a reset request has succeeded
  both \<open>showForgotPassword\<close> and \<open>resetSuccess\<close> are true.
\<close>

theorem reset_success_keeps_forgot_flag:
  "showForgotPassword (run (init Map.empty) reset_done) \<and>
   resetSuccess (run (init Map.empty) reset_done)"
  by code_simp

text \<open>
  Claim C1, amended. In every state exactly one of the four views is rendered, the one
  \<open>mode\<close> names: \<open>resetSuccess\<close> decides first, then \<open>showForgotPassword\<close>, then
  \<open>activeTab\<close>. The two flags are not exclusive: when a reset request made in
  forgot-password mode resolves while the panel is still in that mode, both are true and
  the view is ResetSuccess.
\<close>

theorem exactly_one_view_rendered:
  "length (filter (renders s) [Login, Signup, ForgotPassword, ResetSuccess]) = 1 \<and>
   renders s (mode s) \<and>
   (forgot c \<and> showForgotPassword s \<longrightarrow>
      showForgotPassword (settle c (Resolved b) s) \<and> resetSuccess (settle c (Resolved b) s) \<and>
      mode (settle c (Resolved b) s) = ResetSuccess)"
proof -
  have 1: "length (filter (renders s) [Login, Signup, ForgotPassword, ResetSuccess]) = 1"
    by (cases "activeTab s") auto
  have 2: "renders s (mode s)"
    by (cases "activeTab s") (auto simp: mode_def)
  have 3: "forgot c \<Longrightarrow> showForgotPassword s \<Longrightarrow>
      showForgotPassword (settle c (Resolved b) s) \<and> resetSuccess (settle c (Resolved b) s) \<and>
      mode (settle c (Resolved b) s) = ResetSuccess"
    by (simp add: settle_def mode_def)
  from 1 2 3 show ?thesis by blast
qed

text \<open>The reset request of the sample trace, before and after its answer.\<close>

theorem exactly_one_view_rendered_witness:
  "filter (renders (run (init Map.empty) reset_done)) [Login, Signup, ForgotPassword, ResetSuccess] =
     [ResetSuccess] \<and>
   forgot (hd (inflight (run (init Map.empty) reset_sent))) \<and>
   showForgotPassword (run (init Map.empty) reset_sent) \<and>
   resetSuccess (settle (hd (inflight (run (init Map.empty) reset_sent))) (Resolved None)
                   (run (init Map.empty) reset_sent))"
proof -
  have a: "forgot (hd (inflight (run (init Map.empty) reset_sent)))"
    by code_simp
  have b: "showForgotPassword (run (init Map.empty) reset_sent)"
    by code_simp
  have c: "filter (renders (run (init Map.empty) reset_done))
             [Login, Signup, ForgotPassword, ResetSuccess] = [ResetSuccess]"
    by code_simp
  from exactly_one_view_rendered
         [of "run (init Map.empty) reset_sent" "hd (inflight (run (init Map.empty) reset_sent))" None]
       a b c
  show ?thesis by simp
qed

section \<open>Properties of the mode transitions\<close>

lemma handleSubmit_mode:
  "resetSuccess (handleSubmit s) = resetSuccess s"
  "showForgotPassword (handleSubmit s) = showForgotPassword s"
  "activeTab (handleSubmit s) = activeTab s"
  by (cases "fst (validateForm s)";
      simp add: handleSubmit_valid handleSubmit_blocked)+

text \<open>
  From a state in which \<open>resetSuccess\<close> implies \<open>showForgotPassword\<close> and
  forgot-password mode implies the login tab, every event keeps the mode or makes a
  transition of the specification, provided the event is not the answer to a reset
  request arriving after the panel has left forgot-password mode.
\<close>

lemma mode_step_conforms:
  assumes rs: "resetSuccess s \<longrightarrow> showForgotPassword s"
    and fp: "showForgotPassword s \<longrightarrow> activeTab s = LoginTab"
    and late: "\<And>c cs b. ev = Settle (Resolved b) \<Longrightarrow> inflight s = c # cs \<Longrightarrow> forgot c \<Longrightarrow>
                 showForgotPassword s"
  shows "mode (step s ev) = mode s \<or> spec_transition (mode s) (mode (step s ev))"
proof (cases ev)
  case (Change g v)
  then show ?thesis by (simp add: mode_def handleInputChange_frame)
next
  case (ClickTab t)
  with rs fp show ?thesis by (cases t; cases "activeTab s") (auto simp: mode_def tabs_shown_def)
next
  case ClickToggle
  with rs fp show ?thesis by (cases "activeTab s") (auto simp: mode_def toggle_link_shown_def)
next
  case SubmitForm
  then show ?thesis by (simp add: mode_def handleSubmit_mode)
next
  case ClickForgot
  with rs fp show ?thesis
    by (auto simp: mode_def forgot_link_shown_def handleForgotPassword_def)
next
  case ClickBack
  with rs fp show ?thesis
    by (auto simp: mode_def back_shown_def handleBackToLogin_def)
next
  case (Settle r)
  show ?thesis
  proof (cases "inflight s")
    case Nil
    with Settle show ?thesis by simp
  next
    case (Cons c cs)
    show ?thesis
    proof (cases r)
      case (Resolved b)
      with Settle Cons late [of b c cs] fp show ?thesis
        by (auto simp: mode_def settle_def)
    next
      case (Rejected e)
      with Settle Cons show ?thesis by (simp add: mode_def settle_def)
    qed
  qed
qed

lemma listed_transitions_occur:
  "mode (init store) = Login"
  "mode (step (init store) ClickToggle) = Signup"
  "mode (step (step (init store) ClickToggle) ClickToggle) = Login"
  "mode (step (init store) ClickForgot) = ForgotPassword"
  "mode (step (step (init store) ClickForgot) ClickBack) = Login"
  by (simp_all add: mode_def init_def toggle_link_shown_def forgot_link_shown_def
      back_shown_def handleForgotPassword_def handleBackToLogin_def)

text \<open>
  Claim C7 at the trace where it fails. The user opens forgot-password, submits a valid
  address and, while the request is outstanding, clicks the back link, which is rendered
  and enabled during loading. The panel is in Login. The answer then arrives and the
  continuation sets \<open>resetSuccess\<close>: the panel goes from Login to ResetSuccess, which
  is not a transition of the specification, with \<open>showForgotPassword\<close> false.
\<close>

theorem late_reset_response_trace:
  "mode (run (init Map.empty) left_early) = Login \<and>
   mode (run (init Map.empty) late_answer) = ResetSuccess \<and>
   \<not> spec_transition Login ResetSuccess \<and>
   run (init Map.empty) late_answer = step (run (init Map.empty) left_early) (Settle (Resolved None)) \<and>
   \<not> showForgotPassword (run (init Map.empty) late_answer) \<and>
   resetSuccess (run (init Map.empty) late_answer)"
proof -
  have 1: "mode (run (init Map.empty) left_early) = Login"
    by code_simp
  have 2: "mode (run (init Map.empty) late_answer) = ResetSuccess"
    by code_simp
  have 3: "run (init Map.empty) late_answer =
           step (run (init Map.empty) left_early) (Settle (Resolved None))"
    by (simp add: late_answer_def run_def)
  have 4: "\<not> showForgotPassword (run (init Map.empty) late_answer)"
    by code_simp
  have 5: "resetSuccess (run (init Map.empty) late_answer)"
    by code_simp
  from 1 2 3 4 5 show ?thesis by simp
qed

end
